theory Spec2Isabelle
  imports Main "HOL-Library.Sublist" "HOL-Library.AList"
begin

section \<open>Errors\<close>

text \<open>
  The exceptions the modelled functions can raise. \<open>AstromaticError\<close> (utils/utils.py) and
  \<open>PipelineError\<close> (pipeline.py) are the package's own classes and carry their message;
  the others are Python's built-in exceptions, raised by the interpreter or by the
  libraries the code calls.
\<close>

datatype error =
    AstromaticError string
  | PipelineError string
  | AttributeError string
  | NameError string
  | UnboundLocalError string
  | KeyError string
  | IndexError
  | EOFError
  | TypeError
  | ValueError
  | OSError
  | IOError

section \<open>utils/utils.py\<close>

subsection \<open>str_2_bool\<close>

text \<open>
  \<open>bool_str.lower()\<close> on a byte string: the letters \<open>A\<close> to \<open>Z\<close> (codes 65 to 90) move
  to \<open>a\<close> to \<open>z\<close>, every other byte stays.
\<close>

definition lower_char :: "char \<Rightarrow> char" where
  "lower_char c =
     (let n = (of_char c :: nat) in if 65 \<le> n \<and> n \<le> 90 then char_of (n + 32) else c)"

definition lower :: "string \<Rightarrow> string" where
  "lower s = map lower_char s"

text \<open>\<open>w.startswith(s)\<close>: \<open>s\<close> is a prefix of \<open>w\<close>.\<close>

definition startswith :: "string \<Rightarrow> string \<Rightarrow> bool" where
  "startswith w s = prefix s w"

definition no_match_msg :: "string \<Rightarrow> string" where
  "no_match_msg bool_str =
     [CHR 0x27] @ bool_str @ [CHR 0x27] @
     '' did not match a boolean expression  (true/false, yes/no, t/f, y/n)''"

definition str_2_bool :: "string \<Rightarrow> error + bool" where
  "str_2_bool bool_str =
     (let lower_str = lower bool_str in
      if startswith ''true'' lower_str \<or> startswith ''yes'' lower_str then Inr True
      else if startswith ''false'' lower_str \<or> startswith ''no'' lower_str then Inr False
      else Inl (AstromaticError (no_match_msg bool_str)))"

subsection \<open>get_bool\<close>

text \<open>
  \<open>raw_input\<close> reads the next line of the input; the lines still to come are threaded
  through as a list, and reading past the end raises \<open>EOFError\<close>.

  The handler of \<open>AstromaticError\<close> formats its message from the local \<open>bool_str\<close>, which
  the failed assignment of the \<open>try\<close> body never bound: the handler raises
  \<open>UnboundLocalError\<close> at the \<open>print\<close>, before the recursive call that would ask again.
\<close>

definition get_bool :: "string \<Rightarrow> string list \<Rightarrow> (error + bool) \<times> string list" where
  "get_bool prompt inp =
     (case inp of
        [] \<Rightarrow> (Inl EOFError, [])
      | line # rest \<Rightarrow>
          (case str_2_bool line of
             Inr b \<Rightarrow> (Inr b, rest)
           | Inl _ \<Rightarrow> (Inl (UnboundLocalError ''bool_str''), rest)))"

subsection \<open>create_paths and check_path\<close>

text \<open>
  The part of the file system the two functions look at: the directories and the regular
  files that exist, and the paths where \<open>os.makedirs\<close> is refused by the operating
  system. The ancestors that \<open>os.makedirs\<close> creates on the way are not tracked.
\<close>

record filesys =
  dirs :: "string list"
  files :: "string list"
  denied :: "string list"

definition path_exists :: "filesys \<Rightarrow> string \<Rightarrow> bool" where
  "path_exists fs p = (p \<in> set (dirs fs) \<or> p \<in> set (files fs))"

definition path_isdir :: "filesys \<Rightarrow> string \<Rightarrow> bool" where
  "path_isdir fs p = (p \<in> set (dirs fs))"

definition makedirs :: "string \<Rightarrow> filesys \<Rightarrow> error + filesys" where
  "makedirs p fs =
     (if path_exists fs p \<or> p \<in> set (denied fs) then Inl OSError
      else Inr (fs\<lparr>dirs := dirs fs @ [p]\<rparr>))"

text \<open>
  \<open>create_paths\<close> on a list of paths; a single string is passed as the one-element list,
  which is what the \<open>isinstance\<close> test at its head makes of it.
\<close>

fun create_paths :: "string list \<Rightarrow> filesys \<Rightarrow> error + filesys" where
  "create_paths [] fs = Inr fs"
| "create_paths (p # ps) fs =
     (case makedirs p fs of
        Inr fs' \<Rightarrow> create_paths ps fs'
      | Inl _ \<Rightarrow>
          (if \<not> path_isdir fs p
           then Inl (AstromaticError ''Problem creating new directory, check user permissions'')
           else create_paths ps fs))"

definition create_prompt :: "string \<Rightarrow> string" where
  "create_prompt p = [CHR 0x27] @ p @ [CHR 0x27] @ '' does not exist, create (y/n)?''"

text \<open>
  \<open>check_path\<close> returns nothing; its outcome is the exception or \<open>()\<close>, the file system it
  leaves and the input it has not read. The parameter \<open>auto_create\<close> is not read by the
  body.
\<close>

definition check_path ::
  "string \<Rightarrow> bool \<Rightarrow> filesys \<Rightarrow> string list \<Rightarrow> (error + unit) \<times> filesys \<times> string list" where
  "check_path p auto_create fs inp =
     (if \<not> path_exists fs p then
        (case get_bool (create_prompt p) inp of
           (Inl e, rest) \<Rightarrow> (Inl e, fs, rest)
         | (Inr True, rest) \<Rightarrow>
             (case create_paths [p] fs of
                Inl e \<Rightarrow> (Inl e, fs, rest)
              | Inr fs' \<Rightarrow> (Inr (), fs', rest))
         | (Inr False, rest) \<Rightarrow> (Inl (AstromaticError (p @ '' does not exist'')), fs, rest))
      else (Inr (), fs, inp))"

section \<open>pipeline.py\<close>

subsection \<open>Values, steps and the pipeline\<close>

text \<open>
  The Python values that travel through a run: a step returns a \<open>dict\<close> (the docstrings of
  the runners: "result: dict ... minimally contain a status key"), written as an
  association list; a table of warnings is its list of rows, each row an association
  list from column name to value.
\<close>

datatype pyval =
    PyNone
  | PyBool bool
  | PyInt int
  | PyStr string
  | PyDict "(string \<times> pyval) list"
  | PyTable "(string \<times> pyval) list list"

type_synonym pydict = "(string \<times> pyval) list"

text \<open>
  What \<open>add_step\<close> receives as \<open>func\<close>: a string, or any other object (the code does not
  test that it can be called). What a step holds as \<open>func\<close>: one of the four bound
  methods, or the object as it was passed.
\<close>

datatype 'f func_arg = Str string | Obj 'f

datatype 'f runner = run_sex | run_scamp | run_psfex | run_swarp | callable 'f

text \<open>
  \<open>PipelineStep.__init__\<close> sets exactly the attributes \<open>func\<close>, \<open>tags\<close>, \<open>step_id\<close> and
  \<open>func_kwargs\<close>. Of the attributes \<open>Pipeline.__init__\<close> sets, \<open>add_step\<close> and \<open>run\<close> read
  \<open>steps\<close> and \<open>next_id\<close>; none of them is called \<open>tags\<close>.
\<close>

record 'f pipeline_step =
  func :: "'f runner"
  tags :: "string list"
  step_id :: int
  func_kwargs :: pydict

record 'f pipeline =
  steps :: "'f pipeline_step list"
  next_id :: int

subsection \<open>add_step\<close>

definition not_a_code_msg :: string where
  "not_a_code_msg =
     ''You must either pass a function for the pipeline to run or the name of an astromatic code''"

definition append_step ::
  "'f runner \<Rightarrow> string list \<Rightarrow> pydict \<Rightarrow> 'f pipeline \<Rightarrow> 'f pipeline" where
  "append_step f tgs kwargs p =
     (let sid = next_id p in
      p\<lparr>next_id := next_id p + 1,
        steps := steps p @ [\<lparr>func = f, tags = tgs, step_id = sid, func_kwargs = kwargs\<rparr>]\<rparr>)"

text \<open>
  \<open>api.codes\<close> belongs to api.py, which is not among the sources; \<open>add_step\<close> only asks
  whether a name is in it, so the names it holds are the parameter \<open>codes\<close>. The result is
  the exception or \<open>()\<close>, and the pipeline after the call.
\<close>

definition add_step ::
  "string list \<Rightarrow> 'f func_arg \<Rightarrow> string list \<Rightarrow> pydict \<Rightarrow> 'f pipeline
     \<Rightarrow> (error + unit) \<times> 'f pipeline" where
  "add_step codes fn tgs kwargs p =
     (case fn of
        Str name \<Rightarrow>
          (if name \<in> set codes then
             (if name = ''SExtractor'' then (Inr (), append_step run_sex tgs kwargs p)
              else if name = ''SCAMP'' then (Inr (), append_step run_scamp tgs kwargs p)
              else if name = ''PSFEx'' then (Inr (), append_step run_psfex tgs kwargs p)
              else if name = ''SWARP'' then (Inr (), append_step run_swarp tgs kwargs p)
              else (Inl (PipelineError not_a_code_msg), p))
           else (Inl (PipelineError not_a_code_msg), p))
      | Obj f \<Rightarrow> (Inr (), append_step (callable f) tgs kwargs p))"

text \<open>
  A sequence of calls on one pipeline. A call that raises leaves the pipeline as it was,
  and the caller goes on with the next call.
\<close>

fun add_steps ::
  "string list \<Rightarrow> ('f func_arg \<times> string list \<times> pydict) list \<Rightarrow> 'f pipeline \<Rightarrow> 'f pipeline" where
  "add_steps codes [] p = p"
| "add_steps codes ((fn, tgs, kwargs) # cs) p =
     add_steps codes cs (snd (add_step codes fn tgs kwargs p))"

definition ids_increasing :: "'f pipeline \<Rightarrow> bool" where
  "ids_increasing p =
     (sorted_wrt (<) (map step_id (steps p)) \<and> list_all (\<lambda>s. step_id s < next_id p) (steps p))"

subsection \<open>run\<close>

text \<open>
  The attribute and name lookups of \<open>run\<close> that find nothing. \<open>self.tags\<close> (lines 479 and
  480) asks the pipeline, not the step, for \<open>tags\<close>; \<open>step.ste_id\<close> (line 484) is not an
  attribute of a step; \<open>result.meta\<close> (line 488) is asked of the \<open>dict\<close> a step returned;
  \<open>log\<close> (line 499) is bound nowhere in the module.

  Three lines of the file do not parse as they stand and are read as follows: line 478
  with the name \<open>pipeline_steps\<close> for \<open>pipeline steps\<close>; line 498 with the comma that ends
  the entry \<open>'warnings': all_warnings\<close>; and the header of \<open>PipelineStep.__init__\<close> (line
  514) with the four parameters \<open>func\<close>, \<open>step_id\<close>, \<open>tags\<close>, \<open>func_kwargs\<close> in the order
  \<open>add_step\<close> passes them.
\<close>

definition pipeline_tags :: "'f pipeline \<Rightarrow> error + string list" where
  "pipeline_tags p = Inl (AttributeError ''tags'')"

definition step_ste_id :: "'f pipeline_step \<Rightarrow> error + int" where
  "step_ste_id s = Inl (AttributeError ''ste_id'')"

definition dict_meta :: "pydict \<Rightarrow> error + pydict" where
  "dict_meta d = Inl (AttributeError ''meta'')"

definition name_log :: "error + pyval" where
  "name_log = Inl (NameError ''log'')"

definition py_any :: "bool list \<Rightarrow> bool" where
  "py_any bs = list_ex (\<lambda>b. b) bs"

text \<open>
  The condition of the list comprehension, for one step. \<open>or\<close> and \<open>and\<close> evaluate their
  right operand only when the left one has not decided.
\<close>

definition keep_step ::
  "'f pipeline \<Rightarrow> string list \<Rightarrow> string list \<Rightarrow> 'f pipeline_step \<Rightarrow> error + bool" where
  "keep_step p run_tags ignore_tags step =
     (case (if length run_tags = 0 then Inr True
            else (case pipeline_tags p of
                    Inl e \<Rightarrow> Inl e
                  | Inr ts \<Rightarrow> Inr (py_any (map (\<lambda>tag. tag \<in> set run_tags) ts)))) of
        Inl e \<Rightarrow> Inl e
      | Inr False \<Rightarrow> Inr False
      | Inr True \<Rightarrow>
          (case pipeline_tags p of
             Inl e \<Rightarrow> Inl e
           | Inr ts \<Rightarrow> Inr (\<not> py_any (map (\<lambda>tag. tag \<in> set ignore_tags) ts))))"

fun select_steps ::
  "'f pipeline \<Rightarrow> string list \<Rightarrow> string list \<Rightarrow> 'f pipeline_step list
     \<Rightarrow> error + 'f pipeline_step list" where
  "select_steps p run_tags ignore_tags [] = Inr []"
| "select_steps p run_tags ignore_tags (step # rest) =
     (case keep_step p run_tags ignore_tags step of
        Inl e \<Rightarrow> Inl e
      | Inr b \<Rightarrow>
          (case select_steps p run_tags ignore_tags rest of
             Inl e \<Rightarrow> Inl e
           | Inr sel \<Rightarrow> Inr (if b then step # sel else sel)))"

text \<open>
  \<open>warnings[col] = v\<close> gives every row the value \<open>v\<close> in column \<open>col\<close>; \<open>vstack\<close> puts the
  rows of the second table under those of the first.
\<close>

definition set_column :: "string \<Rightarrow> pyval \<Rightarrow> pydict list \<Rightarrow> pydict list" where
  "set_column col v rows = map (\<lambda>r. AList.update col v r) rows"

definition vstack :: "pydict list \<Rightarrow> pydict list \<Rightarrow> pydict list" where
  "vstack a b = a @ b"

text \<open>Lines 485 to 493: the new value of \<open>all_warnings\<close> after one step's result.\<close>

definition add_warnings :: "pyval \<Rightarrow> pydict \<Rightarrow> int \<Rightarrow> error + pyval" where
  "add_warnings all_warnings result sid =
     (case map_of result ''warnings'' of
        None \<Rightarrow> Inr all_warnings
      | Some warnings \<Rightarrow>
          (case dict_meta result of
             Inl e \<Rightarrow> Inl e
           | Inr meta \<Rightarrow>
               (case map_of meta ''filename'' of
                  None \<Rightarrow> Inl (KeyError ''filename'')
                | Some fname \<Rightarrow>
                    (case warnings of
                       PyTable rows \<Rightarrow>
                         (let rows' = set_column ''step'' (PyInt sid)
                                        (set_column ''filename'' fname rows) in
                          case all_warnings of
                            PyTable acc \<Rightarrow> Inr (PyTable (vstack acc rows'))
                          | _ \<Rightarrow> Inr (PyTable rows'))
                     | _ \<Rightarrow> Inl TypeError))))"

text \<open>
  The \<open>for\<close> loop over the selected steps. \<open>call f sid kwargs\<close> is what the callable \<open>f\<close>
  does when invoked with the step id and the keyword arguments: it raises or returns a
  \<open>dict\<close>.
\<close>

fun run_loop ::
  "('f runner \<Rightarrow> int \<Rightarrow> pydict \<Rightarrow> error + pydict) \<Rightarrow> pyval \<Rightarrow> 'f pipeline_step list
     \<Rightarrow> error + pydict" where
  "run_loop call all_warnings [] =
     Inr [(''status'', PyStr ''success''), (''warnings'', all_warnings)]"
| "run_loop call all_warnings (step # rest) =
     (case step_ste_id step of
        Inl e \<Rightarrow> Inl e
      | Inr sid \<Rightarrow>
          (case call (func step) sid (func_kwargs step) of
             Inl e \<Rightarrow> Inl e
           | Inr result \<Rightarrow>
               (case add_warnings all_warnings result (step_id step) of
                  Inl e \<Rightarrow> Inl e
                | Inr all_warnings' \<Rightarrow>
                    (case map_of result ''status'' of
                       None \<Rightarrow> Inl (KeyError ''status'')
                     | Some st \<Rightarrow>
                         (if st = PyStr ''error'' then
                            (case name_log of
                               Inl e \<Rightarrow> Inl e
                             | Inr log \<Rightarrow>
                                 Inr [(''status'', PyStr ''error''),
                                      (''function_result'', PyDict result),
                                      (''warnings'', all_warnings'),
                                      (''log'', log)])
                          else run_loop call all_warnings' rest)))))"

definition run ::
  "('f runner \<Rightarrow> int \<Rightarrow> pydict \<Rightarrow> error + pydict) \<Rightarrow> 'f pipeline \<Rightarrow> string list \<Rightarrow> string list
     \<Rightarrow> 'f pipeline_step list option \<Rightarrow> error + pydict" where
  "run call p run_tags ignore_tags pipeline_steps =
     (let pipeline_steps' = (case pipeline_steps of None \<Rightarrow> steps p | Some ss \<Rightarrow> ss) in
      case select_steps p run_tags ignore_tags pipeline_steps' of
        Inl e \<Rightarrow> Inl e
      | Inr sel \<Rightarrow> run_loop call PyNone sel)"

section \<open>utils/ldac.py\<close>

text \<open>
  A table is its columns in order, each a name and the cells of the column; a cell is a
  string or a number, and the numbers (floating point in the tests) are of a type the
  model does not look into. An HDU is its header cards and, when it carries a table, the
  table. A FITS file on disk is its list of HDUs.
\<close>

datatype 'v cell = StrCell string | NumCell 'v

type_synonym 'v table = "(string \<times> 'v cell list) list"

record 'v hdu =
  header :: "(string \<times> string) list"
  data :: "'v table option"

type_synonym 'v fits_files = "string \<rightharpoonup> 'v hdu list"

fun string_of_nat :: "nat \<Rightarrow> string" where
  "string_of_nat n =
     (if n < 10 then [char_of (48 + n)]
      else string_of_nat (n div 10) @ [char_of (48 + n mod 10)])"

definition join :: "string \<Rightarrow> string list \<Rightarrow> string" where
  "join sep xs = (case xs of [] \<Rightarrow> [] | y # ys \<Rightarrow> foldl (\<lambda>acc x. acc @ sep @ x) y ys)"

text \<open>
  What the code asks of astropy. \<open>tbl.write(f, format='fits')\<close> followed by \<open>fits.open\<close>
  gives a primary HDU without data and one binary table HDU holding the table;
  \<open>BinTableHDU(data)\<close> wraps a table with a header that names its columns;
  \<open>header.tostring(sep)\<close> joins the cards (their padding to 80 columns is left out).
\<close>

definition bintable_header :: "'v table \<Rightarrow> (string \<times> string) list" where
  "bintable_header tbl =
     [(''XTENSION'', ''BINTABLE''), (''TFIELDS'', string_of_nat (length tbl))] @
     map (\<lambda>(i, c). (''TTYPE'' @ string_of_nat (Suc i), fst c)) (enumerate 0 tbl)"

definition BinTableHDU :: "'v table option \<Rightarrow> 'v hdu" where
  "BinTableHDU d =
     \<lparr>header = bintable_header (case d of None \<Rightarrow> [] | Some tbl \<Rightarrow> tbl), data = d\<rparr>"

definition PrimaryHDU :: "'v hdu" where
  "PrimaryHDU = \<lparr>header = [(''SIMPLE'', ''T''), (''NAXIS'', ''0'')], data = None\<rparr>"

definition table_write_fits :: "'v table \<Rightarrow> 'v hdu list" where
  "table_write_fits tbl = [PrimaryHDU, BinTableHDU (Some tbl)]"

definition header_tostring :: "string \<Rightarrow> (string \<times> string) list \<Rightarrow> string" where
  "header_tostring sep h = join sep (map (\<lambda>(k, v). k @ ''= '' @ v) h)"

definition set_card :: "string \<Rightarrow> string \<Rightarrow> 'v hdu \<Rightarrow> 'v hdu" where
  "set_card k v h = h\<lparr>header := AList.update k v (header h)\<rparr>"

definition convert_hdu_to_ldac :: "'v hdu \<Rightarrow> 'v hdu \<times> 'v hdu" where
  "convert_hdu_to_ldac h =
     (let tblhdr = [StrCell (header_tostring '','' (header h))];
          tbl1 = BinTableHDU (Some [(''Field Header Card'', tblhdr)]);
          tbl1 = set_card ''TDIM1'' (''(80, '' @ string_of_nat (length (header h)) @ '')'') tbl1;
          tbl1 = set_card ''EXTNAME'' ''LDAC_IMHEAD'' tbl1;
          tbl2 = BinTableHDU (data h);
          tbl2 = set_card ''EXTNAME'' ''LDAC_OBJECTS'' tbl2
      in (tbl1, tbl2))"

definition convert_table_to_ldac :: "'v table \<Rightarrow> 'v hdu list" where
  "convert_table_to_ldac tbl =
     (let hdulist = table_write_fits tbl;
          (tbl1, tbl2) = convert_hdu_to_ldac (hdulist ! 1);
          new_hdulist = [hdulist ! 0, tbl1, tbl2]
      in new_hdulist)"

text \<open>
  \<open>hdulist.writeto(filename, **kwargs)\<close>: astropy refuses to write over a file that
  exists unless the keyword arguments ask for it (\<open>clobber\<close>).
\<close>

definition writeto :: "'v hdu list \<Rightarrow> string \<Rightarrow> bool \<Rightarrow> 'v fits_files \<Rightarrow> error + 'v fits_files" where
  "writeto hdulist filename clobber fs =
     (if fs filename \<noteq> None \<and> \<not> clobber then Inl IOError
      else Inr (fs(filename \<mapsto> hdulist)))"

definition save_table_as_ldac ::
  "'v table \<Rightarrow> string \<Rightarrow> bool \<Rightarrow> 'v fits_files \<Rightarrow> error + 'v fits_files" where
  "save_table_as_ldac tbl filename clobber fs =
     (let hdulist = convert_table_to_ldac tbl in writeto hdulist filename clobber fs)"

text \<open>
  \<open>Table.read(filename, hdu=k)\<close>: the table of HDU \<open>k\<close> of the file, a negative \<open>k\<close> counting
  from the end.
\<close>

definition table_read :: "'v fits_files \<Rightarrow> string \<Rightarrow> int \<Rightarrow> error + 'v table" where
  "table_read fs filename k =
     (case fs filename of
        None \<Rightarrow> Inl IOError
      | Some hdulist \<Rightarrow>
          (let n = int (length hdulist); j = (if k < 0 then n + k else k) in
           if 0 \<le> j \<and> j < n then
             (case data (hdulist ! nat j) of None \<Rightarrow> Inl ValueError | Some t \<Rightarrow> Inr t)
           else Inl IndexError))"

definition get_table_from_ldac :: "'v fits_files \<Rightarrow> string \<Rightarrow> int \<Rightarrow> error + 'v table" where
  "get_table_from_ldac fs filename frame =
     (let frame' = (if frame > 0 then frame * 2 else frame) in table_read fs filename frame')"

section \<open>The command builder\<close>

text \<open>
  Modelled from the spec: \<open>api.Astromatic.build_cmd\<close> is missing (api.py is not among the
  sources; tests/test_api.py calls it). The spec, section 4.1 and 6: the command is the
  tool, the files, then \<open>-c\<close> and the configuration file when one is given, then every
  entry of the configuration mapping as \<open>-KEY value\<close> in the mapping's insertion order,
  a boolean value written \<open>Y\<close> or \<open>N\<close>. The mapping is an association list, which keeps
  the order. The catalog-parameter file and the frame selector of section 4.1 are not
  part of this model: the command is built without them.
\<close>

datatype cfgval = CfgStr string | CfgBool bool

definition bool_token :: "bool \<Rightarrow> string" where
  "bool_token b = (if b then ''Y'' else ''N'')"

fun value_token :: "cfgval \<Rightarrow> string" where
  "value_token (CfgStr s) = s"
| "value_token (CfgBool b) = bool_token b"

fun override_tokens :: "(string \<times> cfgval) list \<Rightarrow> string list" where
  "override_tokens [] = []"
| "override_tokens ((k, v) # rest) = (''-'' @ k) # value_token v # override_tokens rest"

definition build_cmd_tokens ::
  "string \<Rightarrow> string list \<Rightarrow> string option \<Rightarrow> (string \<times> cfgval) list \<Rightarrow> string list" where
  "build_cmd_tokens tool filenames config_file config =
     tool # filenames @
     (case config_file of None \<Rightarrow> [] | Some c \<Rightarrow> [''-c'', c]) @
     override_tokens config"

definition build_cmd ::
  "string \<Rightarrow> string list \<Rightarrow> string option \<Rightarrow> (string \<times> cfgval) list \<Rightarrow> string" where
  "build_cmd tool filenames config_file config =
     join '' '' (build_cmd_tokens tool filenames config_file config)"

text \<open>Reading a token sequence back as \<open>(flag, value)\<close> pairs.\<close>

fun token_pairs :: "string list \<Rightarrow> (string \<times> string) list" where
  "token_pairs (k # v # rest) = (k, v) # token_pairs rest"
| "token_pairs _ = []"

section \<open>Properties of str_2_bool\<close>

text \<open>
  Claim C9. \<open>str_2_bool\<close> returns \<open>True\<close> when the lower-cased string is a prefix of
  \<open>true\<close> or of \<open>yes\<close>; it returns \<open>False\<close> when the lower-cased string is a prefix of
  \<open>false\<close> or of \<open>no\<close> (and is not empty: the empty string is a prefix of every word and
  is caught by the first test); it raises \<open>AstromaticError\<close> for every other string. In
  particular the empty string gives \<open>True\<close>.
\<close>

theorem str_2_bool_spec:
  "(prefix (lower s) ''true'' \<or> prefix (lower s) ''yes'' \<longrightarrow> str_2_bool s = Inr True) \<and>
   (s \<noteq> [] \<and> (prefix (lower s) ''false'' \<or> prefix (lower s) ''no'')
      \<longrightarrow> str_2_bool s = Inr False) \<and>
   (\<not> prefix (lower s) ''true'' \<and> \<not> prefix (lower s) ''yes'' \<and>
    \<not> prefix (lower s) ''false'' \<and> \<not> prefix (lower s) ''no''
      \<longrightarrow> str_2_bool s = Inl (AstromaticError (no_match_msg s))) \<and>
   str_2_bool [] = Inr True"
  by (cases s) (auto simp: str_2_bool_def startswith_def lower_def Let_def prefix_Cons)

text \<open>The theorem at \<open>YeS\<close>, \<open>nO\<close> (both from the test) and \<open>maybe\<close>.\<close>

theorem str_2_bool_spec_witness:
  "prefix (lower ''YeS'') ''yes'' \<and> str_2_bool ''YeS'' = Inr True \<and>
   ''nO'' \<noteq> [] \<and> prefix (lower ''nO'') ''no'' \<and> str_2_bool ''nO'' = Inr False \<and>
   \<not> prefix (lower ''maybe'') ''true'' \<and> \<not> prefix (lower ''maybe'') ''yes'' \<and>
   \<not> prefix (lower ''maybe'') ''false'' \<and> \<not> prefix (lower ''maybe'') ''no'' \<and>
   str_2_bool ''maybe'' = Inl (AstromaticError (no_match_msg ''maybe''))"
proof -
  have h1: "prefix (lower ''YeS'') ''yes''" by code_simp
  have h2: "''nO'' \<noteq> [] \<and> prefix (lower ''nO'') ''no''" by code_simp
  have h3: "\<not> prefix (lower ''maybe'') ''true'' \<and> \<not> prefix (lower ''maybe'') ''yes'' \<and>
    \<not> prefix (lower ''maybe'') ''false'' \<and> \<not> prefix (lower ''maybe'') ''no''" by code_simp
  from str_2_bool_spec [of "''YeS''"] h1 have c1: "str_2_bool ''YeS'' = Inr True" by blast
  from str_2_bool_spec [of "''nO''"] h2 have c2: "str_2_bool ''nO'' = Inr False" by blast
  from str_2_bool_spec [of "''maybe''"] h3
  have c3: "str_2_bool ''maybe'' = Inl (AstromaticError (no_match_msg ''maybe''))" by blast
  from h1 h2 h3 c1 c2 c3 show ?thesis by blast
qed

section \<open>Properties of add_step\<close>

lemma append_step_simps:
  "steps (append_step r t k p) = steps p @ [\<lparr>func = r, tags = t, step_id = next_id p, func_kwargs = k\<rparr>]"
  "next_id (append_step r t k p) = next_id p + 1"
  by (simp_all add: append_step_def Let_def)

lemma add_step_state:
  "snd (add_step codes fn t k p) = p \<or> (\<exists>r. snd (add_step codes fn t k p) = append_step r t k p)"
proof (cases fn)
  case (Str name)
  then show ?thesis by (simp add: add_step_def) blast
next
  case (Obj f)
  then show ?thesis by (simp add: add_step_def) blast
qed

lemma upt_shift: "map (\<lambda>i. n + int i) [0..<Suc m] = n # map (\<lambda>i. n + 1 + int i) [0..<m]"
  by (induction m) simp_all

lemma add_steps_new:
  "\<exists>new. steps (add_steps codes cs p) = steps p @ new \<and>
     map step_id new = map (\<lambda>i. next_id p + int i) [0..<length new] \<and>
     next_id (add_steps codes cs p) = next_id p + int (length new)"
proof (induction cs arbitrary: p)
  case Nil
  show ?case by simp
next
  case (Cons c cs)
  obtain fn t k where c: "c = (fn, t, k)" by (cases c)
  define q where "q = snd (add_step codes fn t k p)"
  have step: "add_steps codes (c # cs) p = add_steps codes cs q"
    by (simp add: c q_def)
  from Cons.IH [of q] obtain new where
    n1: "steps (add_steps codes cs q) = steps q @ new" and
    n2: "map step_id new = map (\<lambda>i. next_id q + int i) [0..<length new]" and
    n3: "next_id (add_steps codes cs q) = next_id q + int (length new)"
    by blast
  from add_step_state [of codes fn t k p]
  have "q = p \<or> (\<exists>r. q = append_step r t k p)" by (simp add: q_def)
  then show ?case
  proof
    assume "q = p"
    with n1 n2 n3 step show ?thesis by metis
  next
    assume "\<exists>r. q = append_step r t k p"
    then obtain r where q: "q = append_step r t k p" ..
    define s where "s = \<lparr>func = r, tags = t, step_id = next_id p, func_kwargs = k\<rparr>"
    have sq: "steps q = steps p @ [s]" and nq: "next_id q = next_id p + 1" and ss: "step_id s = next_id p"
      by (simp_all add: q s_def append_step_simps)
    have a: "steps (add_steps codes (c # cs) p) = steps p @ (s # new)"
      by (simp only: step n1 sq) simp
    have b: "map step_id (s # new) = map (\<lambda>i. next_id p + int i) [0..<length (s # new)]"
      using n2 upt_shift [of "next_id p" "length new"] by (simp only: list.map ss nq length_Cons)
    have d: "next_id (add_steps codes (c # cs) p) = next_id p + int (length (s # new))"
      by (simp only: step n3 nq) simp
    from a b d show ?thesis by blast
  qed
qed

lemma ids_sorted: "sorted_wrt (<) (map (\<lambda>i. n + int i) [0..<m])"
  by (simp add: sorted_wrt_map sorted_wrt_iff_nth_less)

lemma ids_distinct: "distinct (map (\<lambda>i. n + int i) [0..<m])"
  by (simp add: distinct_map inj_on_def)

lemma add_step_ok:
  "add_step codes fn t k p = (Inr (), p') \<Longrightarrow> \<exists>r. p' = append_step r t k p"
  by (cases fn) (auto simp: add_step_def split: if_splits)

lemma add_steps_keep_increasing:
  assumes "ids_increasing p"
  shows "ids_increasing (add_steps codes cs p)"
proof -
  obtain new where
    n1: "steps (add_steps codes cs p) = steps p @ new" and
    n2: "map step_id new = map (\<lambda>i. next_id p + int i) [0..<length new]" and
    n3: "next_id (add_steps codes cs p) = next_id p + int (length new)"
    using add_steps_new [of codes cs p] by blast
  have old: "\<forall>x \<in> set (map step_id (steps p)). x < next_id p"
    using assms by (auto simp: ids_increasing_def list_all_iff)
  have new_set: "set (map step_id new) = (\<lambda>i. next_id p + int i) ` {0..<length new}"
    by (simp only: n2 set_map set_upt)
  have lo: "\<forall>y \<in> set (map step_id new). next_id p \<le> y"
    unfolding new_set by auto
  have hi: "\<forall>y \<in> set (map step_id new). y < next_id p + int (length new)"
    unfolding new_set by auto
  have srt_new: "sorted_wrt (<) (map step_id new)"
    by (simp only: n2 ids_sorted)
  have srt_old: "sorted_wrt (<) (map step_id (steps p))"
    using assms by (simp add: ids_increasing_def)
  have cross: "\<forall>x \<in> set (map step_id (steps p)). \<forall>y \<in> set (map step_id new). x < y"
    using old lo by fastforce
  have s: "sorted_wrt (<) (map step_id (steps p @ new))"
    using srt_old srt_new cross by (simp only: map_append sorted_wrt_append)
  have b: "\<forall>x \<in> set (map step_id (steps p @ new)). x < next_id p + int (length new)"
    using old hi by (simp only: map_append set_append) (use n2 in fastforce)
  show ?thesis
    using s b by (auto simp add: ids_increasing_def n1 n3 list_all_iff)
qed

text \<open>
  Claim C4. A successful \<open>add_step\<close> gives the new step the value of the counter
  \<open>next_id\<close> and adds one to the counter. After any sequence of calls, the steps the
  pipeline had are still there, the steps added have the ids \<open>next_id\<close>, \<open>next_id + 1\<close>,
  ... in the order of registration, which are strictly increasing and distinct, and the
  counter has grown by the number of steps added. A pipeline whose ids are strictly
  increasing and below the counter stays so.
\<close>

theorem add_step_ids:
  "(add_step codes fn t k p = (Inr (), p') \<longrightarrow>
      map step_id (steps p') = map step_id (steps p) @ [next_id p] \<and>
      next_id p' = next_id p + 1) \<and>
   (let q = add_steps codes cs p; new = drop (length (steps p)) (steps q) in
      take (length (steps p)) (steps q) = steps p \<and>
      map step_id new = map (\<lambda>i. next_id p + int i) [0..<length new] \<and>
      next_id q = next_id p + int (length new) \<and>
      sorted_wrt (<) (map step_id new) \<and> distinct (map step_id new)) \<and>
   (ids_increasing p \<longrightarrow> ids_increasing (add_steps codes cs p))"
proof -
  have one: "add_step codes fn t k p = (Inr (), p') \<longrightarrow>
      map step_id (steps p') = map step_id (steps p) @ [next_id p] \<and>
      next_id p' = next_id p + 1"
  proof
    assume "add_step codes fn t k p = (Inr (), p')"
    then obtain r where "p' = append_step r t k p" using add_step_ok by blast
    then show "map step_id (steps p') = map step_id (steps p) @ [next_id p] \<and>
      next_id p' = next_id p + 1"
      by (simp add: append_step_simps)
  qed
  obtain new where
    n1: "steps (add_steps codes cs p) = steps p @ new" and
    n2: "map step_id new = map (\<lambda>i. next_id p + int i) [0..<length new]" and
    n3: "next_id (add_steps codes cs p) = next_id p + int (length new)"
    using add_steps_new [of codes cs p] by blast
  have dr: "drop (length (steps p)) (steps (add_steps codes cs p)) = new"
    and tk: "take (length (steps p)) (steps (add_steps codes cs p)) = steps p"
    by (simp_all add: n1)
  have srt: "sorted_wrt (<) (map step_id new)" by (simp only: n2 ids_sorted)
  have dst: "distinct (map step_id new)" by (simp only: n2 ids_distinct)
  have many: "let q = add_steps codes cs p; new = drop (length (steps p)) (steps q) in
      take (length (steps p)) (steps q) = steps p \<and>
      map step_id new = map (\<lambda>i. next_id p + int i) [0..<length new] \<and>
      next_id q = next_id p + int (length new) \<and>
      sorted_wrt (<) (map step_id new) \<and> distinct (map step_id new)"
    unfolding Let_def dr tk using n2 n3 srt dst by blast
  from one many add_steps_keep_increasing show ?thesis by blast
qed

text \<open>
  The theorem on the pipeline \<open>Pipeline.__init__\<close> leaves (no steps, counter 0): one
  successful call, and three calls of which the second raises.
\<close>

theorem add_step_ids_witness:
  "add_step [''SExtractor''] (Obj ()) [''a''] [] \<lparr>steps = [], next_id = 0\<rparr> =
     (Inr (), \<lparr>steps = [\<lparr>func = callable (), tags = [''a''], step_id = 0, func_kwargs = []\<rparr>],
               next_id = 1\<rparr>) \<and>
   map step_id (steps \<lparr>steps = [\<lparr>func = callable (), tags = [''a''], step_id = 0,
                                  func_kwargs = []\<rparr>], next_id = 1\<rparr>) = [0] \<and>
   ids_increasing \<lparr>steps = ([] :: unit pipeline_step list), next_id = 0\<rparr> \<and>
   ids_increasing
     (add_steps [''SExtractor'']
        [(Obj (), [''a''], []), (Str ''bogus'', [], []), (Str ''SExtractor'', [], [])]
        \<lparr>steps = [], next_id = 0\<rparr>)"
proof -
  let ?p0 = "\<lparr>steps = ([] :: unit pipeline_step list), next_id = 0\<rparr>"
  let ?p1 = "\<lparr>steps = [\<lparr>func = callable (), tags = [''a''], step_id = 0,
                                  func_kwargs = []\<rparr>], next_id = 1\<rparr>"
  let ?cs = "[(Obj (), [''a''], []), (Str ''bogus'', [], []), (Str ''SExtractor'', [], [])]"
  have h1: "add_step [''SExtractor''] (Obj ()) [''a''] [] ?p0 = (Inr (), ?p1)"
    by (simp add: add_step_def append_step_def)
  have h2: "ids_increasing ?p0"
    by (simp add: ids_increasing_def)
  note t = add_step_ids [of "[''SExtractor'']" "Obj ()" "[''a'']" "[]" ?p0 ?p1 ?cs]
  from t h1 have c1: "map step_id (steps ?p1) = map step_id (steps ?p0) @ [next_id ?p0]"
    by blast
  from t h2 have c2: "ids_increasing (add_steps [''SExtractor''] ?cs ?p0)"
    by blast
  from h1 h2 c1 c2 show ?thesis by simp
qed

text \<open>
  Claim C5. An argument that is not a string is registered as it is. A string that is in
  \<open>api.codes\<close> and is one of the four names \<open>add_step\<close> knows (\<open>SExtractor\<close>, \<open>SCAMP\<close>,
  \<open>PSFEx\<close>, \<open>SWARP\<close>) is registered as the runner of that tool. Every other string raises
  \<open>PipelineError\<close> and leaves the pipeline as it was. Registering means appending a step
  with the runner, the tags, the keyword arguments and the id \<open>next_id\<close>.
\<close>

theorem add_step_dispatch:
  "add_step codes (Obj f) t k p = (Inr (), append_step (callable f) t k p) \<and>
   (''SExtractor'' \<in> set codes \<longrightarrow>
      add_step codes (Str ''SExtractor'') t k p = (Inr (), append_step run_sex t k p)) \<and>
   (''SCAMP'' \<in> set codes \<longrightarrow>
      add_step codes (Str ''SCAMP'') t k p = (Inr (), append_step run_scamp t k p)) \<and>
   (''PSFEx'' \<in> set codes \<longrightarrow>
      add_step codes (Str ''PSFEx'') t k p = (Inr (), append_step run_psfex t k p)) \<and>
   (''SWARP'' \<in> set codes \<longrightarrow>
      add_step codes (Str ''SWARP'') t k p = (Inr (), append_step run_swarp t k p)) \<and>
   (name \<notin> set codes \<or> name \<notin> {''SExtractor'', ''SCAMP'', ''PSFEx'', ''SWARP''} \<longrightarrow>
      add_step codes (Str name) t k p = (Inl (PipelineError not_a_code_msg), p)) \<and>
   steps (append_step r t k p) =
     steps p @ [\<lparr>func = r, tags = t, step_id = next_id p, func_kwargs = k\<rparr>]"
  by (simp add: add_step_def append_step_simps)

text \<open>
  The theorem with five names in \<open>api.codes\<close>: each of the four tools is registered as
  its runner; \<open>Eye\<close>, a name in \<open>api.codes\<close> without a runner, raises, and so does
  \<open>sextractor\<close>, which is not in \<open>api.codes\<close>.
\<close>

theorem add_step_dispatch_witness:
  "''SExtractor'' \<in> set [''SExtractor'', ''SCAMP'', ''PSFEx'', ''SWARP'', ''Eye''] \<and>
   add_step [''SExtractor'', ''SCAMP'', ''PSFEx'', ''SWARP'', ''Eye''] (Str ''SExtractor'') [] []
       \<lparr>steps = ([] :: unit pipeline_step list), next_id = 0\<rparr> =
     (Inr (), \<lparr>steps = [\<lparr>func = run_sex, tags = [], step_id = 0, func_kwargs = []\<rparr>],
               next_id = 1\<rparr>) \<and>
   ''SCAMP'' \<in> set [''SExtractor'', ''SCAMP'', ''PSFEx'', ''SWARP'', ''Eye''] \<and>
   add_step [''SExtractor'', ''SCAMP'', ''PSFEx'', ''SWARP'', ''Eye''] (Str ''SCAMP'') [] []
       \<lparr>steps = ([] :: unit pipeline_step list), next_id = 0\<rparr> =
     (Inr (), \<lparr>steps = [\<lparr>func = run_scamp, tags = [], step_id = 0, func_kwargs = []\<rparr>],
               next_id = 1\<rparr>) \<and>
   ''PSFEx'' \<in> set [''SExtractor'', ''SCAMP'', ''PSFEx'', ''SWARP'', ''Eye''] \<and>
   add_step [''SExtractor'', ''SCAMP'', ''PSFEx'', ''SWARP'', ''Eye''] (Str ''PSFEx'') [] []
       \<lparr>steps = ([] :: unit pipeline_step list), next_id = 0\<rparr> =
     (Inr (), \<lparr>steps = [\<lparr>func = run_psfex, tags = [], step_id = 0, func_kwargs = []\<rparr>],
               next_id = 1\<rparr>) \<and>
   ''SWARP'' \<in> set [''SExtractor'', ''SCAMP'', ''PSFEx'', ''SWARP'', ''Eye''] \<and>
   add_step [''SExtractor'', ''SCAMP'', ''PSFEx'', ''SWARP'', ''Eye''] (Str ''SWARP'') [] []
       \<lparr>steps = ([] :: unit pipeline_step list), next_id = 0\<rparr> =
     (Inr (), \<lparr>steps = [\<lparr>func = run_swarp, tags = [], step_id = 0, func_kwargs = []\<rparr>],
               next_id = 1\<rparr>) \<and>
   ''Eye'' \<notin> {''SExtractor'', ''SCAMP'', ''PSFEx'', ''SWARP''} \<and>
   add_step [''SExtractor'', ''SCAMP'', ''PSFEx'', ''SWARP'', ''Eye''] (Str ''Eye'') [] []
       \<lparr>steps = ([] :: unit pipeline_step list), next_id = 0\<rparr> =
     (Inl (PipelineError not_a_code_msg), \<lparr>steps = [], next_id = 0\<rparr>) \<and>
   ''sextractor'' \<notin> set [''SExtractor'', ''SCAMP'', ''PSFEx'', ''SWARP'', ''Eye''] \<and>
   add_step [''SExtractor'', ''SCAMP'', ''PSFEx'', ''SWARP'', ''Eye''] (Str ''sextractor'') [] []
       \<lparr>steps = ([] :: unit pipeline_step list), next_id = 0\<rparr> =
     (Inl (PipelineError not_a_code_msg), \<lparr>steps = [], next_id = 0\<rparr>)"
proof -
  let ?codes = "[''SExtractor'', ''SCAMP'', ''PSFEx'', ''SWARP'', ''Eye'']"
  let ?p0 = "\<lparr>steps = ([] :: unit pipeline_step list), next_id = 0\<rparr>"
  have h1: "''SExtractor'' \<in> set ?codes" by simp
  have h2: "''SCAMP'' \<in> set ?codes" by simp
  have h3: "''PSFEx'' \<in> set ?codes" by simp
  have h4: "''SWARP'' \<in> set ?codes" by simp
  have h5: "''Eye'' \<notin> {''SExtractor'', ''SCAMP'', ''PSFEx'', ''SWARP''}" by simp
  have h6: "''sextractor'' \<notin> set ?codes" by simp
  note t = add_step_dispatch [of ?codes "()" "[]" "[]" ?p0 "''Eye''" run_sex]
  note u = add_step_dispatch [of ?codes "()" "[]" "[]" ?p0 "''sextractor''" run_sex]
  have a: "\<And>r. append_step r [] [] ?p0 =
     \<lparr>steps = [\<lparr>func = r, tags = [], step_id = 0, func_kwargs = []\<rparr>], next_id = 1\<rparr>"
    by (simp add: append_step_def)
  from t h1 have c1: "add_step ?codes (Str ''SExtractor'') [] [] ?p0 =
      (Inr (), append_step run_sex [] [] ?p0)" by simp
  from t h2 have c2: "add_step ?codes (Str ''SCAMP'') [] [] ?p0 =
      (Inr (), append_step run_scamp [] [] ?p0)" by simp
  from t h3 have c3: "add_step ?codes (Str ''PSFEx'') [] [] ?p0 =
      (Inr (), append_step run_psfex [] [] ?p0)" by simp
  from t h4 have c4: "add_step ?codes (Str ''SWARP'') [] [] ?p0 =
      (Inr (), append_step run_swarp [] [] ?p0)" by simp
  from t h5 have c5: "add_step ?codes (Str ''Eye'') [] [] ?p0 =
      (Inl (PipelineError not_a_code_msg), ?p0)" by simp
  from u h6 have c6: "add_step ?codes (Str ''sextractor'') [] [] ?p0 =
      (Inl (PipelineError not_a_code_msg), ?p0)" by simp
  from h1 h2 h3 h4 h5 h6 c1 c2 c3 c4 c5 c6 a show ?thesis by simp
qed

section \<open>Properties of the command builder\<close>

lemma token_pairs_override:
  "token_pairs (override_tokens config) = map (\<lambda>(k, v). (''-'' @ k, value_token v)) config"
  by (induction config) auto

text \<open>
  Claim C6. For the tool \<open>sex\<close>, the file \<open>test.fits\<close>, the configuration file \<open>cfg\<close> and
  the mapping \<open>CATALOG_NAME: test.fits\<close>, \<open>CATALOG_TYPE: FITS_LDAC\<close>,
  \<open>PARAMETERS_NAME: default.path\<close>, \<open>FILTER: False\<close> in this order, the command is
  exactly the line of the claim. In general the command starts with the tool, the files
  and the \<open>-c\<close> option when there is a configuration file; the tokens after them, read in
  pairs, are \<open>-KEY\<close> and the value of every entry of the mapping, in the order of the
  mapping; a boolean value is written \<open>Y\<close> or \<open>N\<close>, never \<open>True\<close> or \<open>False\<close>.
\<close>

theorem build_cmd_serialization:
  "build_cmd ''sex'' [''test.fits''] (Some ''cfg'')
     [(''CATALOG_NAME'', CfgStr ''test.fits''), (''CATALOG_TYPE'', CfgStr ''FITS_LDAC''),
      (''PARAMETERS_NAME'', CfgStr ''default.path''), (''FILTER'', CfgBool False)] =
   ''sex test.fits -c cfg -CATALOG_NAME test.fits -CATALOG_TYPE FITS_LDAC -PARAMETERS_NAME default.path -FILTER N'' \<and>
   take (Suc (length filenames) + (case config_file of None \<Rightarrow> 0 | Some c \<Rightarrow> 2))
        (build_cmd_tokens tool filenames config_file config) =
     tool # filenames @ (case config_file of None \<Rightarrow> [] | Some c \<Rightarrow> [''-c'', c]) \<and>
   token_pairs (drop (Suc (length filenames) + (case config_file of None \<Rightarrow> 0 | Some c \<Rightarrow> 2))
                  (build_cmd_tokens tool filenames config_file config)) =
     map (\<lambda>(k, v). (''-'' @ k, value_token v)) config \<and>
   value_token (CfgBool True) = ''Y'' \<and> value_token (CfgBool False) = ''N'' \<and>
   value_token (CfgBool b) \<noteq> ''True'' \<and> value_token (CfgBool b) \<noteq> ''False''"
proof -
  have ex: "build_cmd ''sex'' [''test.fits''] (Some ''cfg'')
     [(''CATALOG_NAME'', CfgStr ''test.fits''), (''CATALOG_TYPE'', CfgStr ''FITS_LDAC''),
      (''PARAMETERS_NAME'', CfgStr ''default.path''), (''FILTER'', CfgBool False)] =
   ''sex test.fits -c cfg -CATALOG_NAME test.fits -CATALOG_TYPE FITS_LDAC -PARAMETERS_NAME default.path -FILTER N''"
    by (simp add: build_cmd_def build_cmd_tokens_def join_def bool_token_def)
  have tk: "take (Suc (length filenames) + (case config_file of None \<Rightarrow> 0 | Some c \<Rightarrow> 2))
        (build_cmd_tokens tool filenames config_file config) =
     tool # filenames @ (case config_file of None \<Rightarrow> [] | Some c \<Rightarrow> [''-c'', c])"
    by (cases config_file) (simp_all add: build_cmd_tokens_def)
  have dr: "drop (Suc (length filenames) + (case config_file of None \<Rightarrow> 0 | Some c \<Rightarrow> 2))
                  (build_cmd_tokens tool filenames config_file config) = override_tokens config"
    by (cases config_file) (simp_all add: build_cmd_tokens_def)
  have b: "value_token (CfgBool True) = ''Y'' \<and> value_token (CfgBool False) = ''N'' \<and>
   value_token (CfgBool b) \<noteq> ''True'' \<and> value_token (CfgBool b) \<noteq> ''False''"
    by (simp add: bool_token_def)
  from ex tk b show ?thesis
    by (simp only: dr token_pairs_override) simp
qed

section \<open>Properties of the LDAC conversion\<close>

lemma convert_table_to_ldac_shape:
  "length (convert_table_to_ldac tbl) = 3"
  "convert_table_to_ldac tbl ! 0 = PrimaryHDU"
  "map_of (header (convert_table_to_ldac tbl ! 1)) ''EXTNAME'' = Some ''LDAC_IMHEAD''"
  "map_of (header (convert_table_to_ldac tbl ! 2)) ''EXTNAME'' = Some ''LDAC_OBJECTS''"
  "data (convert_table_to_ldac tbl ! 2) = Some tbl"
  by (simp_all add: convert_table_to_ldac_def convert_hdu_to_ldac_def table_write_fits_def
        set_card_def BinTableHDU_def Let_def update_conv')

lemma table_read_saved:
  "table_read (fs(f \<mapsto> convert_table_to_ldac tbl)) f 2 = Inr tbl"
  by (simp add: table_read_def convert_table_to_ldac_shape Let_def)

text \<open>
  Claim C10. When \<open>save_table_as_ldac tbl f\<close> has written the file, reading frame 1 of
  \<open>f\<close> with \<open>get_table_from_ldac\<close> gives \<open>tbl\<close> back; the file is written whenever \<open>f\<close> does
  not exist yet or overwriting is asked for. \<open>convert_table_to_ldac\<close> gives three HDUs:
  the primary HDU, the header echo \<open>LDAC_IMHEAD\<close>, and at index 2 the HDU with the data of
  the table. \<open>get_table_from_ldac\<close> reads HDU \<open>2 * frame\<close> for every positive \<open>frame\<close>.
\<close>

theorem ldac_round_trip:
  "(save_table_as_ldac tbl f clobber fs = Inr fs' \<longrightarrow> get_table_from_ldac fs' f 1 = Inr tbl) \<and>
   (fs f = None \<or> clobber \<longrightarrow>
      save_table_as_ldac tbl f clobber fs = Inr (fs(f \<mapsto> convert_table_to_ldac tbl))) \<and>
   length (convert_table_to_ldac tbl) = 3 \<and>
   convert_table_to_ldac tbl ! 0 = PrimaryHDU \<and>
   map_of (header (convert_table_to_ldac tbl ! 1)) ''EXTNAME'' = Some ''LDAC_IMHEAD'' \<and>
   data (convert_table_to_ldac tbl ! 2) = Some tbl \<and>
   (0 < frame \<longrightarrow> get_table_from_ldac fs f frame = table_read fs f (2 * frame))"
proof -
  have rt: "save_table_as_ldac tbl f clobber fs = Inr fs' \<longrightarrow> get_table_from_ldac fs' f 1 = Inr tbl"
  proof
    assume "save_table_as_ldac tbl f clobber fs = Inr fs'"
    then have "fs' = fs(f \<mapsto> convert_table_to_ldac tbl)"
      by (simp add: save_table_as_ldac_def writeto_def Let_def split: if_splits)
    then show "get_table_from_ldac fs' f 1 = Inr tbl"
      using table_read_saved [of fs f tbl] by (simp add: get_table_from_ldac_def)
  qed
  have sv: "fs f = None \<or> clobber \<longrightarrow>
      save_table_as_ldac tbl f clobber fs = Inr (fs(f \<mapsto> convert_table_to_ldac tbl))"
    by (auto simp: save_table_as_ldac_def writeto_def Let_def)
  have fr: "0 < frame \<longrightarrow> get_table_from_ldac fs f frame = table_read fs f (2 * frame)"
    by (simp add: get_table_from_ldac_def mult.commute)
  from rt sv fr convert_table_to_ldac_shape [of tbl] show ?thesis by blast
qed

text \<open>
  The theorem on a table of one column and two rows, saved to a file that does not exist,
  and read back as frame 1.
\<close>

theorem ldac_round_trip_witness:
  "save_table_as_ldac [(''MAG_AUTO'', [NumCell (7::int), NumCell 9])] ''temp.ldac.fits'' False Map.empty =
     Inr (Map.empty(''temp.ldac.fits'' \<mapsto> convert_table_to_ldac [(''MAG_AUTO'', [NumCell (7::int), NumCell 9])])) \<and>
   get_table_from_ldac
     (Map.empty(''temp.ldac.fits'' \<mapsto> convert_table_to_ldac [(''MAG_AUTO'', [NumCell (7::int), NumCell 9])]))
     ''temp.ldac.fits'' 1 = Inr [(''MAG_AUTO'', [NumCell 7, NumCell 9])] \<and>
   (0::int) < 1 \<and>
   get_table_from_ldac (Map.empty :: int fits_files) ''temp.ldac.fits'' 1 =
     table_read Map.empty ''temp.ldac.fits'' (2 * 1)"
proof -
  let ?tbl = "[(''MAG_AUTO'', [NumCell (7::int), NumCell 9])]"
  let ?f = "''temp.ldac.fits''"
  let ?fs' = "(Map.empty :: int fits_files)(?f \<mapsto> convert_table_to_ldac ?tbl)"
  note t = ldac_round_trip [of ?tbl ?f False Map.empty ?fs' 1]
  have h0: "(Map.empty :: int fits_files) ?f = None \<or> False" by simp
  from t h0 have h1: "save_table_as_ldac ?tbl ?f False Map.empty = Inr ?fs'" by blast
  from t h1 have c1: "get_table_from_ldac ?fs' ?f 1 = Inr ?tbl" by blast
  have h2: "(0::int) < 1" by simp
  from t h2 have c2: "get_table_from_ldac (Map.empty :: int fits_files) ?f 1 =
     table_read Map.empty ?f (2 * 1)" by blast
  from h1 c1 h2 c2 show ?thesis by blast
qed

section \<open>Properties of check_path\<close>

text \<open>
  Claim C8, as amended. A path that exists is left alone, whatever \<open>auto_create\<close> is:
  nothing is read from the input and nothing is created. For a path that does not exist
  and \<open>auto_create\<close> false, the user is asked, and the answer decides: an answer that
  \<open>str_2_bool\<close> reads as \<open>True\<close> creates the path (or raises \<open>AstromaticError\<close> when the
  directory cannot be created), an answer read as \<open>False\<close> raises \<open>AstromaticError\<close> and
  creates nothing.
\<close>

theorem check_path_prompted:
  "(path_exists fs p \<longrightarrow> check_path p auto_create fs inp = (Inr (), fs, inp)) \<and>
   (\<not> path_exists fs p \<and> str_2_bool line = Inr True \<and> p \<notin> set (denied fs) \<longrightarrow>
      check_path p False fs (line # rest) = (Inr (), fs\<lparr>dirs := dirs fs @ [p]\<rparr>, rest)) \<and>
   (\<not> path_exists fs p \<and> str_2_bool line = Inr True \<and> p \<in> set (denied fs) \<longrightarrow>
      check_path p False fs (line # rest) =
        (Inl (AstromaticError ''Problem creating new directory, check user permissions''),
         fs, rest)) \<and>
   (\<not> path_exists fs p \<and> str_2_bool line = Inr False \<longrightarrow>
      check_path p False fs (line # rest) =
        (Inl (AstromaticError (p @ '' does not exist'')), fs, rest))"
  by (simp add: check_path_def get_bool_def makedirs_def path_isdir_def path_exists_def)

text \<open>
  The theorem on a file system with the directory \<open>temp\<close> and a path \<open>locked\<close> that cannot
  be created: \<open>temp\<close> exists; \<open>log\<close> is created on the answer \<open>Y\<close> and refused on \<open>no\<close>;
  \<open>locked\<close> fails on \<open>Y\<close>.
\<close>

theorem check_path_prompted_witness:
  "path_exists \<lparr>dirs = [''temp''], files = [], denied = [''locked'']\<rparr> ''temp'' \<and>
   check_path ''temp'' False \<lparr>dirs = [''temp''], files = [], denied = [''locked'']\<rparr> [''n''] =
     (Inr (), \<lparr>dirs = [''temp''], files = [], denied = [''locked'']\<rparr>, [''n'']) \<and>
   \<not> path_exists \<lparr>dirs = [''temp''], files = [], denied = [''locked'']\<rparr> ''log'' \<and>
   str_2_bool ''Y'' = Inr True \<and>
   ''log'' \<notin> set (denied \<lparr>dirs = [''temp''], files = [], denied = [''locked'']\<rparr>) \<and>
   check_path ''log'' False \<lparr>dirs = [''temp''], files = [], denied = [''locked'']\<rparr> [''Y'', ''x''] =
     (Inr (), \<lparr>dirs = [''temp'', ''log''], files = [], denied = [''locked'']\<rparr>, [''x'']) \<and>
   \<not> path_exists \<lparr>dirs = [''temp''], files = [], denied = [''locked'']\<rparr> ''locked'' \<and>
   ''locked'' \<in> set (denied \<lparr>dirs = [''temp''], files = [], denied = [''locked'']\<rparr>) \<and>
   check_path ''locked'' False \<lparr>dirs = [''temp''], files = [], denied = [''locked'']\<rparr> [''Y'', ''x''] =
     (Inl (AstromaticError ''Problem creating new directory, check user permissions''),
      \<lparr>dirs = [''temp''], files = [], denied = [''locked'']\<rparr>, [''x'']) \<and>
   str_2_bool ''no'' = Inr False \<and>
   check_path ''log'' False \<lparr>dirs = [''temp''], files = [], denied = [''locked'']\<rparr> [''no''] =
     (Inl (AstromaticError ''log does not exist''),
      \<lparr>dirs = [''temp''], files = [], denied = [''locked'']\<rparr>, [])"
proof -
  let ?fs = "\<lparr>dirs = [''temp''], files = [], denied = [''locked'']\<rparr>"
  have e1: "path_exists ?fs ''temp''" by (simp add: path_exists_def)
  have e2: "\<not> path_exists ?fs ''log''" by (simp add: path_exists_def)
  have e3: "\<not> path_exists ?fs ''locked''" by (simp add: path_exists_def)
  have b1: "str_2_bool ''Y'' = Inr True" by code_simp
  have b2: "str_2_bool ''no'' = Inr False" by code_simp
  have d1: "''log'' \<notin> set (denied ?fs)" by simp
  have d2: "''locked'' \<in> set (denied ?fs)" by simp
  from check_path_prompted [of ?fs "''temp''" False "[''n'']"] e1
  have c1: "check_path ''temp'' False ?fs [''n''] = (Inr (), ?fs, [''n''])" by blast
  from check_path_prompted [of ?fs "''log''" False "[]" "''Y''" "[''x'']"] e2 b1 d1
  have c2: "check_path ''log'' False ?fs [''Y'', ''x''] =
     (Inr (), ?fs\<lparr>dirs := dirs ?fs @ [''log'']\<rparr>, [''x''])" by blast
  from check_path_prompted [of ?fs "''locked''" False "[]" "''Y''" "[''x'']"] e3 b1 d2
  have c3: "check_path ''locked'' False ?fs [''Y'', ''x''] =
     (Inl (AstromaticError ''Problem creating new directory, check user permissions''),
      ?fs, [''x''])" by blast
  from check_path_prompted [of ?fs "''log''" False "[]" "''no''" "[]"] e2 b2
  have c4: "check_path ''log'' False ?fs [''no''] =
     (Inl (AstromaticError (''log'' @ '' does not exist'')), ?fs, [])" by blast
  from e1 e2 e3 b1 b2 d1 d2 c1 c2 c3 c4 show ?thesis by simp
qed

text \<open>
  Claim C8 as it is stated says that the outcome depends on the existence of the path and
  on \<open>auto_create\<close> only, never on interactive input. For the missing path \<open>path2\<close> of the
  test and \<open>auto_create\<close> false, the answer \<open>y\<close> creates the path and the answer \<open>n\<close> raises;
  with \<open>auto_create\<close> true the answer \<open>n\<close> still raises and nothing is created.
\<close>

theorem check_path_reads_input:
  "check_path ''path2'' False \<lparr>dirs = [], files = [], denied = []\<rparr> [''y''] =
     (Inr (), \<lparr>dirs = [''path2''], files = [], denied = []\<rparr>, []) \<and>
   check_path ''path2'' False \<lparr>dirs = [], files = [], denied = []\<rparr> [''n''] =
     (Inl (AstromaticError ''path2 does not exist''), \<lparr>dirs = [], files = [], denied = []\<rparr>, []) \<and>
   check_path ''path2'' True \<lparr>dirs = [], files = [], denied = []\<rparr> [''n''] =
     (Inl (AstromaticError ''path2 does not exist''), \<lparr>dirs = [], files = [], denied = []\<rparr>, []) \<and>
   fst (check_path ''path2'' False \<lparr>dirs = [], files = [], denied = []\<rparr> [''y'']) \<noteq>
   fst (check_path ''path2'' False \<lparr>dirs = [], files = [], denied = []\<rparr> [''n''])"
  by (simp add: check_path_def path_exists_def get_bool_def str_2_bool_def startswith_def
        lower_def lower_char_def makedirs_def path_isdir_def Let_def)

section \<open>Pipeline.run on concrete pipelines\<close>

text \<open>
  With no step to look at, \<open>run\<close> reports success and no warnings. With at least one
  step, the condition of the comprehension asks the pipeline for \<open>tags\<close> and the run ends
  there; the loop, entered with any step, would end at \<open>step.ste_id\<close>.
\<close>

lemma run_empty:
  "run call \<lparr>steps = [], next_id = 0\<rparr> rt it None = Inr [(''status'', PyStr ''success''), (''warnings'', PyNone)]"
  by (simp add: run_def)

lemma select_steps_Cons:
  "select_steps p run_tags ignore_tags (step # rest) = Inl (AttributeError ''tags'')"
  by (simp add: keep_step_def pipeline_tags_def)

lemma run_loop_Cons:
  "run_loop call all_warnings (step # rest) = Inl (AttributeError ''ste_id'')"
  by (simp add: step_ste_id_def)

text \<open>
  Claim C1 says that a step with the tags \<open>A\<close> and \<open>B\<close> runs when \<open>run_tags\<close> is \<open>A\<close>. On
  the pipeline with this one step, \<open>run\<close> with \<open>run_tags = [A]\<close> raises \<open>AttributeError\<close>
  for \<open>tags\<close> while it selects the steps, whatever the step's callable does: the
  condition reads \<open>self.tags\<close>, not the tags of the step.
\<close>

theorem run_tag_filter_raises:
  "run call
     \<lparr>steps = [\<lparr>func = callable (), tags = [''A'', ''B''], step_id = 0, func_kwargs = []\<rparr>],
      next_id = 1\<rparr> [''A''] [] None = Inl (AttributeError ''tags'') \<and>
   keep_step
     \<lparr>steps = [\<lparr>func = callable (), tags = [''A'', ''B''], step_id = 0, func_kwargs = []\<rparr>],
      next_id = 1\<rparr> [''A''] []
     \<lparr>func = callable (), tags = [''A'', ''B''], step_id = 0, func_kwargs = []\<rparr> =
       Inl (AttributeError ''tags'')"
  by (simp add: run_def keep_step_def pipeline_tags_def)

text \<open>
  Claim C2 says that a run stops at the first step whose result has the status \<open>error\<close>
  and reports the failing result and the warnings so far. On a pipeline of two steps
  whose callable returns \<open>status: error\<close>, \<open>run\<close> raises \<open>AttributeError\<close> for \<open>tags\<close>
  before any step is invoked; the loop on these steps raises \<open>AttributeError\<close> for
  \<open>ste_id\<close>; and the name \<open>log\<close>, which the report of a failing step reads, is not bound.
\<close>

theorem run_error_step_raises:
  "run (\<lambda>f sid kwargs. Inr [(''status'', PyStr ''error''), (''error'', PyStr ''Division by 0'')])
     \<lparr>steps = [\<lparr>func = callable (), tags = [], step_id = 0, func_kwargs = []\<rparr>,
               \<lparr>func = callable (), tags = [], step_id = 1, func_kwargs = []\<rparr>],
      next_id = 2\<rparr> [] [] None = Inl (AttributeError ''tags'') \<and>
   run_loop (\<lambda>f sid kwargs. Inr [(''status'', PyStr ''error''), (''error'', PyStr ''Division by 0'')])
     PyNone
     [\<lparr>func = callable (), tags = [], step_id = 0, func_kwargs = []\<rparr>,
      \<lparr>func = callable (), tags = [], step_id = 1, func_kwargs = []\<rparr>] =
       Inl (AttributeError ''ste_id'') \<and>
   name_log = Inl (NameError ''log'')"
  by (simp add: run_def keep_step_def pipeline_tags_def step_ste_id_def name_log_def)

text \<open>
  Claim C7 says that the warnings of a step's result are appended to the accumulated
  table, each row tagged with the file name and the step id. On a pipeline of one step
  whose callable returns a table of one warning, \<open>run\<close> raises \<open>AttributeError\<close> for
  \<open>tags\<close>; and lines 485 to 493, given this result, raise \<open>AttributeError\<close> for \<open>meta\<close>,
  which is asked of the \<open>dict\<close> the step returned.
\<close>

theorem run_warnings_raises:
  "run (\<lambda>f sid kwargs. Inr [(''status'', PyStr ''success''),
                            (''warnings'', PyTable [[(''text'', PyStr ''low contrast'')]])])
     \<lparr>steps = [\<lparr>func = callable (), tags = [], step_id = 0, func_kwargs = []\<rparr>],
      next_id = 1\<rparr> [] [] None = Inl (AttributeError ''tags'') \<and>
   add_warnings PyNone
     [(''status'', PyStr ''success''),
      (''warnings'', PyTable [[(''text'', PyStr ''low contrast'')]])] 0 =
       Inl (AttributeError ''meta'')"
  by (simp add: run_def keep_step_def pipeline_tags_def add_warnings_def dict_meta_def)

text \<open>
  Claim C3 says that the state of the pipeline is written to the checkpoint file after
  every step. \<open>run\<close> has no statement that writes a file, and its value is the result
  alone. On the four steps of \<open>test_run_advanced\<close> it raises \<open>AttributeError\<close> for \<open>tags\<close>
  before the first step, whatever the callables do.
\<close>

theorem run_test_pipeline_raises:
  "run call
     \<lparr>steps = [\<lparr>func = callable (1::nat), tags = [''func1''], step_id = 0,
                func_kwargs = [(''var1'', PyInt 3), (''var2'', PyInt 4)]\<rparr>,
               \<lparr>func = callable 2, tags = [''func2''], step_id = 1,
                func_kwargs = [(''var1'', PyInt 25), (''var2'', PyInt 10)]\<rparr>,
               \<lparr>func = callable 2, tags = [''func2''], step_id = 2,
                func_kwargs = [(''var1'', PyInt 1), (''var2'', PyInt 0)]\<rparr>,
               \<lparr>func = callable 3, tags = [], step_id = 3,
                func_kwargs = [(''var1'', PyInt 1), (''var2'', PyInt 0)]\<rparr>],
      next_id = 4\<rparr> [] [] None = Inl (AttributeError ''tags'')"
  by (simp add: run_def keep_step_def pipeline_tags_def)

end
